theory Spec2Isabelle
  imports Main "HOL-Library.List_Lexorder" "HOL-Library.Char_ord" "HOL-Library.Multiset"
begin

section \<open>The data layer of localdb.js\<close>

text \<open>
  The store of \<^verbatim>\<open>localdb.js\<close> is one JSON object kept under a single localStorage key.
  Every public function starts with \<^verbatim>\<open>load()\<close> and, when it changes something, ends with
  \<^verbatim>\<open>save(db)\<close>. The embedding passes the store explicitly: each operation takes the value
  \<^verbatim>\<open>load()\<close> returns and gives back its own result together with the store that is persisted
  afterwards. An absent key loads as the empty store (\<^verbatim>\<open>init()\<close>), so the empty store stands
  for it.

  JavaScript numbers are IEEE 754 doubles. Ids and counters are integer-valued doubles,
  modelled by their value in \<^typ>\<open>int\<close>. Comparison, \<^verbatim>\<open>===\<close> and \<^verbatim>\<open>Math.max\<close> are exact on
  doubles; the one rounding operation of the source, \<^verbatim>\<open>counter + 1\<close>, is \<open>js_add1\<close> below.
  On integers \<^verbatim>\<open>Number(x)\<close> is the identity and \<^verbatim>\<open>x || 0\<close> is \<open>x\<close>. \<^verbatim>\<open>null\<close> and an absent
  property are \<open>None\<close>. Strings compare with \<open><\<close> lexicographically, as JavaScript compares
  them by code unit.

  \<^verbatim>\<open>uuidv4()\<close> and \<^verbatim>\<open>nowIso()\<close> read the environment; their results are arguments of
  the operations that call them.
\<close>

subsection \<open>Records\<close>

record item =
  item_id :: string
  itemName :: string
  studentId :: string
  ownerName :: string
  category :: string
  strand :: "string option"
  email :: "string option"
  contact :: "string option"
  photoPath :: "string option"
  status :: string
  createdAt :: string
  foundPhotoPath :: "string option"
  lastClaimedAt :: "string option"

record found_report =
  report_id :: int
  report_itemId :: string
  finderName :: string
  location :: string
  report_photoPath :: "string option"
  report_status :: string
  report_createdAt :: string

record claim =
  claim_id :: int
  claim_itemId :: string
  claimantName :: string
  claim_createdAt :: string

record store =
  items :: "item list"
  found_reports :: "found_report list"
  claims :: "claim list"
  seq_found_reports :: int
  seq_claims :: int

text \<open>The argument objects of \<^verbatim>\<open>addItem\<close> and \<^verbatim>\<open>addFoundReport\<close>.\<close>

record item_fields =
  f_itemName :: string
  f_studentId :: string
  f_ownerName :: string
  f_strand :: "string option"
  f_email :: "string option"
  f_contact :: "string option"
  f_photoDataUrl :: "string option"
  f_category :: "string option"

record report_fields =
  g_itemId :: string
  g_finderName :: string
  g_location :: string
  g_photoDataUrl :: "string option"

subsection \<open>JavaScript helpers\<close>

text \<open>Truthiness of a value that is a string or null: null and the empty string are falsy.\<close>

fun truthy :: "string option \<Rightarrow> bool" where
  "truthy None = False"
| "truthy (Some s) = (s \<noteq> [])"

text \<open>\<^verbatim>\<open>v || null\<close> and \<^verbatim>\<open>v || "other"\<close>.\<close>

definition or_null :: "string option \<Rightarrow> string option" where
  "or_null v = (if truthy v then v else None)"

fun or_default :: "string option \<Rightarrow> string \<Rightarrow> string" where
  "or_default None d = d"
| "or_default (Some s) d = (if s \<noteq> [] then s else d)"

text \<open>
  \<^verbatim>\<open>xs.find(p)\<close> is \<^const>\<open>List.find\<close>: the first element that satisfies \<open>p\<close>. The source
  then assigns to fields of the object found, which changes the array element in place:
  \<open>update_first\<close> applies the assignment to the first element that satisfies \<open>p\<close>.
\<close>

fun update_first :: "('a \<Rightarrow> bool) \<Rightarrow> ('a \<Rightarrow> 'a) \<Rightarrow> 'a list \<Rightarrow> 'a list" where
  "update_first p f [] = []"
| "update_first p f (x # xs) = (if p x then f x # xs else x # update_first p f xs)"

text \<open>\<^verbatim>\<open>Math.max(a, ...xs)\<close> on integers.\<close>

definition math_max :: "int \<Rightarrow> int list \<Rightarrow> int" where
  "math_max a xs = fold max xs a"

text \<open>
  \<^verbatim>\<open>n + 1\<close> on an integer-valued double \<open>n\<close>: the exact sum rounded to the nearest double,
  ties to the even mantissa. With \<open>2^53 = 9007199254740992\<close> and \<open>2^54 = 18014398509481984\<close>:
  \<^item> for \<open>- 2^53 \<le> n < 2^53\<close> the sum is a double, so the result is \<open>n + 1\<close>;
  \<^item> for the other \<open>n\<close> with \<open>- 2^54 \<le> n < 2^54\<close> the doubles are the even integers, the sum
    lies halfway between \<open>n\<close> and \<open>n + 2\<close>, and the one whose mantissa (its half) is even
    wins: \<open>2^53 + 1\<close> is \<open>2^53\<close>, and \<open>(2^53 + 2) + 1\<close> is \<open>2^53 + 4\<close>;
  \<^item> beyond that the doubles are at least 4 apart and the sum rounds back to \<open>n\<close>.
  An odd integer beyond \<open>2^53\<close> in size is not a double, so no record or counter of the
  source holds one; on such an argument the value of \<open>js_add1\<close> stands for nothing.
\<close>

definition js_add1 :: "int \<Rightarrow> int" where
  "js_add1 n =
     (if - 9007199254740992 \<le> n \<and> n < 9007199254740992 then n + 1
      else if - 18014398509481984 \<le> n \<and> n < 18014398509481984
        then (if even (n div 2) then n else n + 2)
      else n)"

text \<open>
  \<^verbatim>\<open>Array.prototype.sort(cmp)\<close> belongs to the engine. ECMAScript fixes its result only for
  a consistent comparator (one with \<open>cmp a a = 0\<close>, among other laws); otherwise the order
  is implementation-defined. The model is an insertion sort that takes the elements in
  array order and puts each one in front of the first element it compares negative
  against. For a consistent comparator this is a stable sort. The comparator receives the
  later element first, the order in which V8 (Chrome, Node.js) passes them, where
  \<^verbatim>\<open>[1, 2, 3].sort(() => -1)\<close> is \<^verbatim>\<open>[3, 2, 1]\<close>; an engine that passes the earlier element
  first can order ties the other way round.
\<close>

fun insert_sorted :: "('a \<Rightarrow> 'a \<Rightarrow> int) \<Rightarrow> 'a \<Rightarrow> 'a list \<Rightarrow> 'a list" where
  "insert_sorted cmp x [] = [x]"
| "insert_sorted cmp x (y # ys) =
     (if cmp x y < 0 then x # y # ys else y # insert_sorted cmp x ys)"

definition array_sort :: "('a \<Rightarrow> 'a \<Rightarrow> int) \<Rightarrow> 'a list \<Rightarrow> 'a list" where
  "array_sort cmp xs = foldl (\<lambda>acc x. insert_sorted cmp x acc) [] xs"

text \<open>
  A consistent comparator: the one that compares two elements by a key. On it
  \<open>array_sort\<close> is the stable sort by that key (\<open>array_sort_stable\<close> below).
\<close>

definition key_compare :: "('a \<Rightarrow> 'k::linorder) \<Rightarrow> 'a \<Rightarrow> 'a \<Rightarrow> int" where
  "key_compare k a b = (if k a < k b then - 1 else if k b < k a then 1 else 0)"

subsection \<open>Operations\<close>

definition init :: store where
  "init = \<lparr>items = [], found_reports = [], claims = [], seq_found_reports = 0, seq_claims = 0\<rparr>"

definition addItem :: "store \<Rightarrow> item_fields \<Rightarrow> string \<Rightarrow> string \<Rightarrow> item \<times> store" where
  "addItem db a uuid now =
     (let it = \<lparr>item_id = uuid,
                 itemName = f_itemName a,
                 studentId = f_studentId a,
                 ownerName = f_ownerName a,
                 category = or_default (f_category a) ''other'',
                 strand = or_null (f_strand a),
                 email = or_null (f_email a),
                 contact = or_null (f_contact a),
                 photoPath = or_null (f_photoDataUrl a),
                 status = ''registered'',
                 createdAt = now,
                 foundPhotoPath = None,
                 lastClaimedAt = None\<rparr>
      in (it, db\<lparr>items := items db @ [it]\<rparr>))"

definition getItem :: "store \<Rightarrow> string \<Rightarrow> item option" where
  "getItem db i = find (\<lambda>x. item_id x = i) (items db)"

text \<open>The comparator \<^verbatim>\<open>(a, b) => (a.createdAt < b.createdAt ? 1 : -1)\<close>.\<close>

definition by_createdAt_desc :: "item \<Rightarrow> item \<Rightarrow> int" where
  "by_createdAt_desc a b = (if createdAt a < createdAt b then 1 else - 1)"

definition listItemsByStudent :: "store \<Rightarrow> string \<Rightarrow> item list" where
  "listItemsByStudent db sid =
     array_sort by_createdAt_desc (filter (\<lambda>it. studentId it = sid) (items db))"

definition addFoundReport :: "store \<Rightarrow> report_fields \<Rightarrow> string \<Rightarrow> found_report \<times> store" where
  "addFoundReport db a now =
     (let n = js_add1 (seq_found_reports db);
          report = \<lparr>report_id = n,
                     report_itemId = g_itemId a,
                     finderName = g_finderName a,
                     location = g_location a,
                     report_photoPath = or_null (g_photoDataUrl a),
                     report_status = ''pending'',
                     report_createdAt = now\<rparr>
      in (report, db\<lparr>found_reports := found_reports db @ [report], seq_found_reports := n\<rparr>))"

definition verifyReportMoveToLost :: "store \<Rightarrow> int \<Rightarrow> bool \<times> store" where
  "verifyReportMoveToLost db rid =
     (case find (\<lambda>x. report_id x = rid) (found_reports db) of
        None \<Rightarrow> (False, db)
      | Some report \<Rightarrow>
          (case find (\<lambda>x. item_id x = report_itemId report) (items db) of
             None \<Rightarrow> (False, db)
           | Some _ \<Rightarrow>
               (True,
                db\<lparr>found_reports :=
                      update_first (\<lambda>x. report_id x = rid)
                        (\<lambda>r. r\<lparr>report_status := ''verified''\<rparr>) (found_reports db),
                    items :=
                      update_first (\<lambda>x. item_id x = report_itemId report)
                        (\<lambda>i. if truthy (report_photoPath report)
                              then i\<lparr>status := ''lost'', foundPhotoPath := report_photoPath report\<rparr>
                              else i\<lparr>status := ''lost''\<rparr>)
                        (items db)\<rparr>)))"

definition addClaim :: "store \<Rightarrow> string \<Rightarrow> string \<Rightarrow> string \<Rightarrow> claim option \<times> store" where
  "addClaim db itemId name now =
     (case find (\<lambda>x. item_id x = itemId) (items db) of
        None \<Rightarrow> (None, db)
      | Some _ \<Rightarrow>
          (let n = js_add1 (seq_claims db);
               c = \<lparr>claim_id = n, claim_itemId = itemId, claimantName = name,
                    claim_createdAt = now\<rparr>
           in (Some c,
               db\<lparr>seq_claims := n,
                   claims := claims db @ [c],
                   items :=
                     update_first (\<lambda>x. item_id x = itemId)
                       (\<lambda>i. i\<lparr>status := ''claimed'', lastClaimedAt := Some (claim_createdAt c)\<rparr>)
                       (items db)\<rparr>)))"

definition exportAll :: "store \<Rightarrow> store" where
  "exportAll db = db"

subsection \<open>Import\<close>

text \<open>
  The argument of \<^verbatim>\<open>importMerge\<close> is whatever \<^verbatim>\<open>JSON.parse\<close> gave the caller. What the
  function reads of it is its truthiness, its \<^verbatim>\<open>typeof\<close>, and the three properties
  \<^verbatim>\<open>items\<close>, \<^verbatim>\<open>found_reports\<close> and \<^verbatim>\<open>claims\<close>. A property is
  \<^item> \<open>Falsy\<close>: absent, null, false, 0 or the empty string, for which \<^verbatim>\<open>data[key] || []\<close>
    is the empty array;
  \<^item> \<open>NotIterable\<close>: a truthy value that \<^verbatim>\<open>for ... of\<close> cannot iterate (a number, true, a
    plain object): the loop raises a TypeError;
  \<^item> \<open>Array xs\<close>: an array whose elements are records (\<open>Some r\<close>) or null (\<open>None\<close>), on which
    \<^verbatim>\<open>item.id\<close> raises a TypeError.
  Arrays that hold other primitives, and non-empty strings in place of an array, are not
  modelled. A value that is an array has none of the three properties.
\<close>

datatype js_error = TypeError

datatype 'a js_property = Falsy | NotIterable | Array "'a option list"

record import_object =
  d_items :: "item js_property"
  d_found_reports :: "found_report js_property"
  d_claims :: "claim js_property"

datatype import_data =
    JsUndefined
  | JsNull
  | JsBoolean bool
  | JsNumber int
  | JsString string
  | JsArray
  | JsObject import_object

fun truthy_data :: "import_data \<Rightarrow> bool" where
  "truthy_data JsUndefined = False"
| "truthy_data JsNull = False"
| "truthy_data (JsBoolean b) = b"
| "truthy_data (JsNumber n) = (n \<noteq> 0)"
| "truthy_data (JsString s) = (s \<noteq> [])"
| "truthy_data JsArray = True"
| "truthy_data (JsObject d) = True"

fun typeof :: "import_data \<Rightarrow> string" where
  "typeof JsUndefined = ''undefined''"
| "typeof JsNull = ''object''"
| "typeof (JsBoolean b) = ''boolean''"
| "typeof (JsNumber n) = ''number''"
| "typeof (JsString s) = ''string''"
| "typeof JsArray = ''object''"
| "typeof (JsObject d) = ''object''"

fun properties :: "import_data \<Rightarrow> import_object" where
  "properties (JsObject d) = d"
| "properties _ = \<lparr>d_items = Falsy, d_found_reports = Falsy, d_claims = Falsy\<rparr>"

text \<open>
  The loop of \<^verbatim>\<open>mergeArray\<close>. \<open>existing\<close> holds the keys of the collection as it was before
  the loop (the source builds the Map once); \<open>acc\<close> is the collection being pushed to.
\<close>

fun merge_loop :: "('a \<Rightarrow> 'k) \<Rightarrow> 'k list \<Rightarrow> 'a list \<Rightarrow> 'a option list \<Rightarrow> js_error + 'a list" where
  "merge_loop uniqueBy existing acc [] = Inr acc"
| "merge_loop uniqueBy existing acc (None # ys) = Inl TypeError"
| "merge_loop uniqueBy existing acc (Some y # ys) =
     merge_loop uniqueBy existing
       (if uniqueBy y \<in> set existing then acc else acc @ [y]) ys"

fun mergeArray :: "('a \<Rightarrow> 'k) \<Rightarrow> 'a list \<Rightarrow> 'a js_property \<Rightarrow> js_error + 'a list" where
  "mergeArray uniqueBy xs Falsy = Inr xs"
| "mergeArray uniqueBy xs NotIterable = Inl TypeError"
| "mergeArray uniqueBy xs (Array ys) = merge_loop uniqueBy (map uniqueBy xs) xs ys"

text \<open>
  \<open>Inl TypeError\<close>: the call raised before \<^verbatim>\<open>save(db)\<close>, so the persisted store is the old
  one. \<open>Inr (r, db')\<close>: the call returned \<open>r\<close> and the persisted store is \<open>db'\<close>.
\<close>

definition importMerge :: "store \<Rightarrow> import_data \<Rightarrow> js_error + (bool \<times> store)" where
  "importMerge db data =
     (if \<not> truthy_data data \<or> typeof data \<noteq> ''object'' then Inr (False, db)
      else
        (case mergeArray item_id (items db) (d_items (properties data)) of
           Inl e \<Rightarrow> Inl e
         | Inr its \<Rightarrow>
        (case mergeArray report_id (found_reports db) (d_found_reports (properties data)) of
           Inl e \<Rightarrow> Inl e
         | Inr frs \<Rightarrow>
        (case mergeArray claim_id (claims db) (d_claims (properties data)) of
           Inl e \<Rightarrow> Inl e
         | Inr cls \<Rightarrow>
             Inr (True,
                  db\<lparr>items := its, found_reports := frs, claims := cls,
                      seq_found_reports :=
                        math_max (seq_found_reports db) (map report_id frs @ [0]),
                      seq_claims :=
                        math_max (seq_claims db) (map claim_id cls @ [0])\<rparr>)))))"

text \<open>The store that \<^verbatim>\<open>exportAll()\<close> returns, seen as an argument of \<^verbatim>\<open>importMerge\<close>.\<close>

definition as_import_data :: "store \<Rightarrow> import_data" where
  "as_import_data db =
     JsObject \<lparr>d_items = Array (map Some (items db)),
               d_found_reports = Array (map Some (found_reports db)),
               d_claims = Array (map Some (claims db))\<rparr>"

subsection \<open>Sequences of public operations\<close>

datatype operation =
    AddItem item_fields string string
  | AddFoundReport report_fields string
  | VerifyReportMoveToLost int
  | AddClaim string string string
  | ImportMerge import_data

fun perform :: "store \<Rightarrow> operation \<Rightarrow> store" where
  "perform db (AddItem a uuid now) = snd (addItem db a uuid now)"
| "perform db (AddFoundReport a now) = snd (addFoundReport db a now)"
| "perform db (VerifyReportMoveToLost rid) = snd (verifyReportMoveToLost db rid)"
| "perform db (AddClaim itemId name now) = snd (addClaim db itemId name now)"
| "perform db (ImportMerge data) =
     (case importMerge db data of Inl e \<Rightarrow> db | Inr (r, db') \<Rightarrow> db')"

inductive reachable :: "store \<Rightarrow> bool" where
  reachable_init: "reachable init"
| reachable_step: "reachable db \<Longrightarrow> reachable (perform db op)"

subsection \<open>Notions of the specification and invariants\<close>

text \<open>
  The specification's status order \<^verbatim>\<open>registered \<rightarrow> lost \<rightarrow> claimed\<close>: a status stays, or
  takes one step forward.
\<close>

definition forward_only :: "string \<Rightarrow> string \<Rightarrow> bool" where
  "forward_only s s' =
     (s' = s \<or> (s = ''registered'' \<and> s' = ''lost'') \<or> (s = ''lost'' \<and> s' = ''claimed''))"

text \<open>
  The specification's "well-formed record": a value with named fields, which an array or a
  primitive is not.
\<close>

fun well_formed_record :: "import_data \<Rightarrow> bool" where
  "well_formed_record (JsObject d) = True"
| "well_formed_record _ = False"

text \<open>
  The specification's "structurally valid" snapshot: an object in which each of the three
  collections is absent or an array of records.
\<close>

fun valid_property :: "'a js_property \<Rightarrow> bool" where
  "valid_property Falsy = True"
| "valid_property NotIterable = False"
| "valid_property (Array xs) = list_all (\<lambda>x. x \<noteq> None) xs"

fun structurally_valid :: "import_data \<Rightarrow> bool" where
  "structurally_valid (JsObject d) =
     (valid_property (d_items d) \<and> valid_property (d_found_reports d) \<and>
      valid_property (d_claims d))"
| "structurally_valid _ = False"

text \<open>The records that a collection of a snapshot holds, in order.\<close>

fun somes :: "'a option list \<Rightarrow> 'a list" where
  "somes [] = []"
| "somes (None # xs) = somes xs"
| "somes (Some x # xs) = x # somes xs"

fun records_of :: "'a js_property \<Rightarrow> 'a list" where
  "records_of (Array xs) = somes xs"
| "records_of _ = []"

text \<open>No record of a sequenced collection has an id above the collection's counter.\<close>

definition seq_inv :: "store \<Rightarrow> bool" where
  "seq_inv db =
     ((\<forall>r\<in>set (found_reports db). report_id r \<le> seq_found_reports db) \<and>
      (\<forall>c\<in>set (claims db). claim_id c \<le> seq_claims db))"

text \<open>Neither counter is negative.\<close>

definition seq_nonneg :: "store \<Rightarrow> bool" where
  "seq_nonneg db = (0 \<le> seq_found_reports db \<and> 0 \<le> seq_claims db)"

subsection \<open>Concrete stores and arguments\<close>

definition wallet_fields :: item_fields where
  "wallet_fields =
     \<lparr>f_itemName = ''Blue Wallet'', f_studentId = ''S1'', f_ownerName = ''Ana'',
      f_strand = None, f_email = None, f_contact = None,
      f_photoDataUrl = Some ''x'', f_category = Some ''wallets''\<rparr>"

definition library_fields :: report_fields where
  "library_fields =
     \<lparr>g_itemId = ''item-1'', g_finderName = ''Ben'', g_location = ''Library'',
      g_photoDataUrl = None\<rparr>"

definition gym_fields :: report_fields where
  "gym_fields =
     \<lparr>g_itemId = ''item-1'', g_finderName = ''Cy'', g_location = ''Gym'',
      g_photoDataUrl = Some ''y''\<rparr>"

text \<open>The store after one \<^verbatim>\<open>addItem\<close>.\<close>

definition store_registered :: store where
  "store_registered = perform init (AddItem wallet_fields ''item-1'' ''2024-01-01T08:00:00.000Z'')"

text \<open>Then a found report without a photo is added and verified.\<close>

definition store_lost :: store where
  "store_lost =
     perform (perform store_registered (AddFoundReport library_fields ''2024-01-01T09:00:00.000Z''))
       (VerifyReportMoveToLost 1)"

text \<open>Then the owner claims the item.\<close>

definition store_claimed :: store where
  "store_claimed = perform store_lost (AddClaim ''item-1'' ''Ana'' ''2024-01-02T08:00:00.000Z'')"

text \<open>The registered item with a pending report that carries a photo.\<close>

definition store_photo :: store where
  "store_photo = perform store_registered (AddFoundReport gym_fields ''2024-01-01T09:30:00.000Z'')"

text \<open>
  A report whose \<^verbatim>\<open>photoPath\<close> is the empty string, and the store that holds it after an
  import into \<open>store_registered\<close>.
\<close>

definition empty_photo_report :: found_report where
  "empty_photo_report =
     \<lparr>report_id = 1, report_itemId = ''item-1'', finderName = ''Ben'', location = ''Library'',
      report_photoPath = Some [], report_status = ''pending'',
      report_createdAt = ''2024-01-01T09:00:00.000Z''\<rparr>"

definition store_empty_photo :: store where
  "store_empty_photo =
     perform store_registered
       (ImportMerge (JsObject \<lparr>d_items = Falsy,
                               d_found_reports = Array [Some empty_photo_report],
                               d_claims = Falsy\<rparr>))"

text \<open>Two items of one student registered at the same instant.\<close>

definition store_ties :: store where
  "store_ties =
     perform store_registered
       (AddItem (wallet_fields\<lparr>f_itemName := ''Red Tumbler''\<rparr>) ''item-2''
          ''2024-01-01T08:00:00.000Z'')"

text \<open>
  A snapshot with an item whose id \<open>store_claimed\<close> already has, an item it does not have,
  and a found report with id 57.
\<close>

definition other_wallet :: item where
  "other_wallet =
     \<lparr>item_id = ''item-1'', itemName = ''Green Wallet'', studentId = ''S2'', ownerName = ''Bo'',
      category = ''wallets'', strand = None, email = None, contact = None, photoPath = None,
      status = ''registered'', createdAt = ''2023-12-01T08:00:00.000Z'',
      foundPhotoPath = None, lastClaimedAt = None\<rparr>"

definition phone :: item where
  "phone = other_wallet\<lparr>item_id := ''item-3'', itemName := ''Phone'', category := ''phones''\<rparr>"

definition report_57 :: found_report where
  "report_57 = empty_photo_report\<lparr>report_id := 57, report_photoPath := None\<rparr>"

definition snapshot :: import_data where
  "snapshot =
     JsObject \<lparr>d_items = Array [Some other_wallet, Some phone],
               d_found_reports = Array [Some report_57],
               d_claims = Falsy\<rparr>"

text \<open>
  A claim and a found report with id \<open>2^53\<close>, and the store that holds them after an import
  into \<open>store_registered\<close>.
\<close>

definition big_claim :: claim where
  "big_claim =
     \<lparr>claim_id = 9007199254740992, claim_itemId = ''item-1'', claimantName = ''Ana'',
      claim_createdAt = ''2023-12-31T08:00:00.000Z''\<rparr>"

definition big_report :: found_report where
  "big_report = empty_photo_report\<lparr>report_id := 9007199254740992, report_photoPath := None\<rparr>"

definition store_big :: store where
  "store_big =
     perform store_registered
       (ImportMerge (JsObject \<lparr>d_items = Falsy,
                               d_found_reports = Array [Some big_report],
                               d_claims = Array [Some big_claim]\<rparr>))"

text \<open>
  Two items with the same id in one snapshot, imported into the empty store: the key map
  is built before the loop, so both are pushed.
\<close>

definition twin_wallet :: item where
  "twin_wallet = other_wallet\<lparr>itemName := ''Grey Wallet''\<rparr>"

definition store_duplicate :: store where
  "store_duplicate =
     perform init
       (ImportMerge (JsObject \<lparr>d_items = Array [Some other_wallet, Some twin_wallet],
                               d_found_reports = Falsy,
                               d_claims = Falsy\<rparr>))"

section \<open>Lookup and in-place update\<close>

lemma find_update_first:
  "find p xs = Some x \<Longrightarrow> p (f x) \<Longrightarrow> find p (update_first p f xs) = Some (f x)"
  by (induction xs) (auto split: if_splits)

lemma find_Some_iff_ex: "(\<exists>x. find p xs = Some x) \<longleftrightarrow> (\<exists>x\<in>set xs. p x)"
  by (induction xs) auto

lemma find_Some_holds: "find p xs = Some x \<Longrightarrow> p x \<and> x \<in> set xs"
  by (induction xs) (auto split: if_splits)

lemma length_update_first [simp]: "length (update_first p f xs) = length xs"
  by (induction xs) auto

lemma nth_update_first:
  "i < length xs \<Longrightarrow>
   update_first p f xs ! i = xs ! i \<or> (p (xs ! i) \<and> update_first p f xs ! i = f (xs ! i))"
proof (induction xs arbitrary: i)
  case Nil
  then show ?case by simp
next
  case (Cons x xs)
  then show ?case by (cases i) auto
qed

lemma nth_update_first_exact:
  "i < length xs \<Longrightarrow>
   update_first p f xs ! i =
     (if p (xs ! i) \<and> (\<forall>k<i. \<not> p (xs ! k)) then f (xs ! i) else xs ! i)"
proof (induction xs arbitrary: i)
  case Nil
  then show ?case by simp
next
  case (Cons x xs)
  show ?case
  proof (cases i)
    case 0
    then show ?thesis by simp
  next
    case (Suc j)
    with Cons.prems have j: "j < length xs" by simp
    show ?thesis
    proof (cases "p x")
      case True
      have lhs: "update_first p f (x # xs) ! i = xs ! j"
        using True Suc by simp
      have "0 < i \<and> p ((x # xs) ! 0)"
        using True Suc by simp
      then have "\<not> (p ((x # xs) ! i) \<and> (\<forall>k<i. \<not> p ((x # xs) ! k)))"
        by blast
      then have "(if p ((x # xs) ! i) \<and> (\<forall>k<i. \<not> p ((x # xs) ! k))
          then f ((x # xs) ! i) else (x # xs) ! i) = (x # xs) ! i"
        by (rule if_not_P)
      with lhs Suc show ?thesis by simp
    next
      case False
      then have "(\<forall>k<i. \<not> p ((x # xs) ! k)) \<longleftrightarrow> (\<forall>k<j. \<not> p (xs ! k))"
        using Suc by (auto simp: All_less_Suc2)
      with False Suc Cons.IH [OF j] show ?thesis by auto
    qed
  qed
qed

lemma in_set_update_first:
  "y \<in> set (update_first p f xs) \<Longrightarrow> y \<in> set xs \<or> (\<exists>x\<in>set xs. y = f x)"
  by (induction xs) (auto split: if_splits)

section \<open>The merge loop and the counters\<close>

lemma merge_loop_Some:
  "merge_loop u ex acc (map Some ys) = Inr (acc @ filter (\<lambda>y. u y \<notin> set ex) ys)"
  by (induction ys arbitrary: acc) auto

lemma merge_loop_Inr:
  "merge_loop u ex acc ys = Inr r \<Longrightarrow> \<exists>new. r = acc @ new \<and> (\<forall>x\<in>set new. u x \<notin> set ex)"
proof (induction ys arbitrary: acc)
  case Nil
  then show ?case by simp
next
  case (Cons y ys)
  show ?case
  proof (cases y)
    case None
    with Cons.prems show ?thesis by simp
  next
    case (Some v)
    with Cons.prems have "merge_loop u ex (if u v \<in> set ex then acc else acc @ [v]) ys = Inr r"
      by simp
    from Cons.IH [OF this] show ?thesis by (auto split: if_splits)
  qed
qed

lemma map_Some_somes: "list_all (\<lambda>x. x \<noteq> None) xs \<Longrightarrow> map Some (somes xs) = xs"
  by (induction xs rule: somes.induct) auto

lemma somes_map_Some [simp]: "somes (map Some xs) = xs"
  by (induction xs) auto

lemma mergeArray_valid:
  "valid_property p \<Longrightarrow>
   mergeArray u xs p = Inr (xs @ filter (\<lambda>y. u y \<notin> u ` set xs) (records_of p))"
proof (cases p)
  case Falsy
  then show ?thesis by simp
next
  case NotIterable
  assume "valid_property p"
  with NotIterable show ?thesis by simp
next
  case (Array ys)
  assume "valid_property p"
  with Array have "map Some (somes ys) = ys" by (simp add: map_Some_somes)
  then have "merge_loop u (map u xs) xs ys
      = Inr (xs @ filter (\<lambda>y. u y \<notin> set (map u xs)) (somes ys))"
    using merge_loop_Some [of u "map u xs" xs "somes ys"] by simp
  with Array show ?thesis by simp
qed

lemma mergeArray_prefix: "mergeArray u xs p = Inr r \<Longrightarrow> \<exists>new. r = xs @ new"
  by (cases p) (auto dest: merge_loop_Inr)

lemma js_add1_ge: "n \<le> js_add1 n"
  by (simp add: js_add1_def)

lemma js_add1_exact:
  "- 9007199254740992 \<le> n \<Longrightarrow> n < 9007199254740992 \<Longrightarrow> js_add1 n = n + 1"
  by (simp add: js_add1_def)

lemma js_add1_nonneg: "0 \<le> n \<Longrightarrow> 0 \<le> js_add1 n"
  using js_add1_ge [of n] by simp

lemma math_max_Max: "math_max a xs = Max (insert a (set xs))"
  using Max.set_eq_fold [of a xs] by (simp add: math_max_def)

lemma math_max_ge: "x \<in> set xs \<Longrightarrow> x \<le> math_max a xs"
  by (simp add: math_max_Max)

lemma math_max_nonneg: "0 \<le> math_max a (xs @ [0])"
  using math_max_ge [of 0 "xs @ [0]" a] by simp

lemma math_max_zero:
  "0 \<le> a \<Longrightarrow> math_max a (xs @ [0]) = Max (insert a (set xs))"
proof -
  assume a: "0 \<le> a"
  have "math_max a (xs @ [0]) = Max (insert 0 (insert a (set xs)))"
    by (simp add: math_max_Max insert_commute)
  also have "\<dots> = max 0 (Max (insert a (set xs)))"
    by (rule Max_insert) simp_all
  also have "\<dots> = Max (insert a (set xs))"
  proof -
    have "a \<le> Max (insert a (set xs))" by (rule Max_ge) simp_all
    with a have "0 \<le> Max (insert a (set xs))" by (rule order_trans)
    then show ?thesis by (rule max_absorb2)
  qed
  finally show ?thesis .
qed

lemma math_max_bounded:
  assumes "0 \<le> a" and "\<forall>x\<in>set xs. x \<le> a"
  shows "math_max a (xs @ [0]) = a"
proof -
  have "Max (insert a (set xs)) = a"
    using assms(2) by (intro Max_eqI) auto
  with assms(1) show ?thesis by (simp add: math_max_zero)
qed

text \<open>What \<^verbatim>\<open>importMerge\<close> does with a structurally valid snapshot.\<close>

lemma importMerge_valid:
  assumes "structurally_valid data"
  shows "importMerge db data =
     Inr (True,
       db\<lparr>items := items db @ filter (\<lambda>y. item_id y \<notin> item_id ` set (items db))
                   (records_of (d_items (properties data))),
          found_reports := found_reports db @
              filter (\<lambda>y. report_id y \<notin> report_id ` set (found_reports db))
                   (records_of (d_found_reports (properties data))),
          claims := claims db @ filter (\<lambda>y. claim_id y \<notin> claim_id ` set (claims db))
                   (records_of (d_claims (properties data))),
          seq_found_reports := math_max (seq_found_reports db)
             (map report_id (found_reports db @
                filter (\<lambda>y. report_id y \<notin> report_id ` set (found_reports db))
                   (records_of (d_found_reports (properties data)))) @ [0]),
          seq_claims := math_max (seq_claims db)
             (map claim_id (claims db @
                filter (\<lambda>y. claim_id y \<notin> claim_id ` set (claims db))
                   (records_of (d_claims (properties data)))) @ [0])\<rparr>)"
proof -
  from assms obtain d where d: "data = JsObject d"
    by (cases data) auto
  with assms have v: "valid_property (d_items d)" "valid_property (d_found_reports d)"
      "valid_property (d_claims d)"
    by simp_all
  show ?thesis
    unfolding importMerge_def d
    by (simp add: mergeArray_valid [OF v(1)] mergeArray_valid [OF v(2)]
        mergeArray_valid [OF v(3)])
qed

lemma structurally_valid_export: "structurally_valid (as_import_data db)"
  by (simp add: as_import_data_def list_all_iff)

lemma items_perform_import:
  "\<exists>new. items (perform db (ImportMerge data)) = items db @ new"
proof (cases "importMerge db data")
  case (Inl e)
  then show ?thesis by simp
next
  case (Inr res)
  obtain r db' where res: "res = (r, db')" by (cases res)
  show ?thesis
  proof (cases "\<not> truthy_data data \<or> typeof data \<noteq> ''object''")
    case True
    with Inr res show ?thesis by (simp add: importMerge_def)
  next
    case False
    with Inr res obtain its
      where "mergeArray item_id (items db) (d_items (properties data)) = Inr its"
        and "items db' = its"
      by (auto simp: importMerge_def split: sum.splits)
    with Inr res show ?thesis by (auto dest: mergeArray_prefix)
  qed
qed

section \<open>The counters bound the ids\<close>

lemma seq_inv_init: "seq_inv init"
  by (simp add: seq_inv_def init_def)

lemma seq_inv_addItem: "seq_inv db \<Longrightarrow> seq_inv (snd (addItem db a uuid now))"
  by (simp add: seq_inv_def addItem_def Let_def)

lemma seq_inv_addFoundReport: "seq_inv db \<Longrightarrow> seq_inv (snd (addFoundReport db a now))"
  using js_add1_ge [of "seq_found_reports db"]
  by (fastforce simp: seq_inv_def addFoundReport_def Let_def)

lemma seq_inv_verify: "seq_inv db \<Longrightarrow> seq_inv (snd (verifyReportMoveToLost db rid))"
  by (auto simp: seq_inv_def verifyReportMoveToLost_def split: option.splits
      dest!: in_set_update_first)

lemma seq_inv_addClaim: "seq_inv db \<Longrightarrow> seq_inv (snd (addClaim db itemId name now))"
  using js_add1_ge [of "seq_claims db"]
  by (fastforce simp: seq_inv_def addClaim_def Let_def split: option.splits)

lemma seq_inv_importMerge:
  assumes "importMerge db data = Inr (r, db')" and "seq_inv db"
  shows "seq_inv db'"
proof (cases "\<not> truthy_data data \<or> typeof data \<noteq> ''object''")
  case True
  with assms show ?thesis by (simp add: importMerge_def)
next
  case False
  with assms(1) obtain its frs cls where
    db': "db' = db\<lparr>items := its, found_reports := frs, claims := cls,
                  seq_found_reports := math_max (seq_found_reports db) (map report_id frs @ [0]),
                  seq_claims := math_max (seq_claims db) (map claim_id cls @ [0])\<rparr>"
    by (auto simp: importMerge_def split: sum.splits)
  show ?thesis
    unfolding seq_inv_def db' by (simp add: math_max_ge)
qed

lemma seq_inv_perform: "seq_inv db \<Longrightarrow> seq_inv (perform db op)"
proof (cases op)
  case (ImportMerge data)
  assume "seq_inv db"
  then show ?thesis
    using ImportMerge seq_inv_importMerge [of db data]
    by (auto split: sum.splits)
qed (simp_all add: seq_inv_addItem seq_inv_addFoundReport seq_inv_verify seq_inv_addClaim)

lemma reachable_seq_inv: "reachable db \<Longrightarrow> seq_inv db"
  by (induction rule: reachable.induct) (simp_all add: seq_inv_init seq_inv_perform)

lemma seq_nonneg_perform: "seq_nonneg db \<Longrightarrow> seq_nonneg (perform db op)"
proof (cases op)
  case (ImportMerge data)
  assume "seq_nonneg db"
  then show ?thesis
    using ImportMerge
    by (auto simp: seq_nonneg_def importMerge_def math_max_nonneg split: sum.splits)
qed (auto simp: seq_nonneg_def addItem_def addFoundReport_def verifyReportMoveToLost_def
      addClaim_def Let_def js_add1_nonneg split: option.splits)

lemma reachable_seq_nonneg: "reachable db \<Longrightarrow> seq_nonneg db"
proof (induction rule: reachable.induct)
  case reachable_init
  show ?case by (simp add: seq_nonneg_def init_def)
next
  case (reachable_step db op)
  then show ?case by (simp add: seq_nonneg_perform)
qed

section \<open>The sort\<close>

lemma mset_insert_sorted: "mset (insert_sorted cmp x xs) = add_mset x (mset xs)"
  by (induction xs) auto

lemma mset_foldl_insert:
  "mset (foldl (\<lambda>acc x. insert_sorted cmp x acc) acc xs) = mset acc + mset xs"
  by (induction xs arbitrary: acc) (auto simp: mset_insert_sorted)

lemma mset_array_sort: "mset (array_sort cmp xs) = mset xs"
  by (simp add: array_sort_def mset_foldl_insert)

lemma set_insert_sorted: "set (insert_sorted cmp x xs) = insert x (set xs)"
  using mset_insert_sorted [of cmp x xs, THEN arg_cong, of set_mset] by simp

lemma array_sort_snoc:
  "array_sort cmp (xs @ [x]) = insert_sorted cmp x (array_sort cmp xs)"
  by (simp add: array_sort_def)

lemma sorted_insert_key:
  "sorted (map k zs) \<Longrightarrow> sorted (map k (insert_sorted (key_compare k) x zs))"
  by (induction zs) (auto simp: key_compare_def set_insert_sorted)

lemma filter_insert_key:
  "sorted (map k zs) \<Longrightarrow>
   filter (\<lambda>y. c = k y) (insert_sorted (key_compare k) x zs)
     = filter (\<lambda>y. c = k y) zs @ filter (\<lambda>y. c = k y) [x]"
proof (induction zs)
  case Nil
  then show ?case by simp
next
  case (Cons z zs)
  show ?case
  proof (cases "k x < k z")
    case True
    with Cons.prems have "\<forall>y\<in>set (z # zs). k x < k y" by auto
    then have "c = k x \<Longrightarrow> filter (\<lambda>y. c = k y) (z # zs) = []"
      by (auto simp: filter_empty_conv)
    with True show ?thesis by (auto simp: key_compare_def)
  next
    case False
    with Cons show ?thesis by (auto simp: key_compare_def)
  qed
qed

lemma sorted_array_sort_key: "sorted (map k (array_sort (key_compare k) xs))"
  by (induction xs rule: rev_induct) (simp_all add: array_sort_def sorted_insert_key)

lemma filter_array_sort_key:
  "filter (\<lambda>y. c = k y) (array_sort (key_compare k) xs) = filter (\<lambda>y. c = k y) xs"
proof (induction xs rule: rev_induct)
  case Nil
  then show ?case by (simp add: array_sort_def)
next
  case (snoc x xs)
  then show ?case
    by (simp add: array_sort_snoc filter_insert_key [OF sorted_array_sort_key])
qed

text \<open>On a comparator by key the model of the sort is the stable sort \<^const>\<open>sort_key\<close>.\<close>

lemma array_sort_stable: "array_sort (key_compare k) xs = sort_key k xs"
  by (rule properties_for_sort_key [symmetric])
    (simp_all add: mset_array_sort filter_array_sort_key sorted_array_sort_key)

lemma desc_insert_sorted:
  "sorted_wrt (\<lambda>a b. createdAt b \<le> createdAt a) xs \<Longrightarrow>
   sorted_wrt (\<lambda>a b. createdAt b \<le> createdAt a) (insert_sorted by_createdAt_desc x xs)"
proof (induction xs)
  case Nil
  then show ?case by simp
next
  case (Cons y ys)
  show ?case
  proof (cases "createdAt x < createdAt y")
    case True
    with Cons show ?thesis by (auto simp: set_insert_sorted by_createdAt_desc_def)
  next
    case False
    then have "createdAt y \<le> createdAt x" by simp
    with Cons.prems False show ?thesis by (auto simp: by_createdAt_desc_def)
  qed
qed

lemma desc_foldl_insert:
  "sorted_wrt (\<lambda>a b. createdAt b \<le> createdAt a) acc \<Longrightarrow>
   sorted_wrt (\<lambda>a b. createdAt b \<le> createdAt a)
     (foldl (\<lambda>acc x. insert_sorted by_createdAt_desc x acc) acc xs)"
  by (induction xs arbitrary: acc) (simp_all add: desc_insert_sorted)

section \<open>The concrete stores\<close>

lemma store_registered_eq:
  "store_registered =
     \<lparr>items = [\<lparr>item_id = ''item-1'', itemName = ''Blue Wallet'', studentId = ''S1'',
        ownerName = ''Ana'', category = ''wallets'', strand = None, email = None,
        contact = None, photoPath = Some ''x'', status = ''registered'',
        createdAt = ''2024-01-01T08:00:00.000Z'', foundPhotoPath = None,
        lastClaimedAt = None\<rparr>],
      found_reports = [], claims = [], seq_found_reports = 0, seq_claims = 0\<rparr>"
  by (simp add: store_registered_def wallet_fields_def addItem_def init_def Let_def or_null_def)

lemma store_lost_eq:
  "store_lost =
     \<lparr>items = [\<lparr>item_id = ''item-1'', itemName = ''Blue Wallet'', studentId = ''S1'',
        ownerName = ''Ana'', category = ''wallets'', strand = None, email = None,
        contact = None, photoPath = Some ''x'', status = ''lost'',
        createdAt = ''2024-01-01T08:00:00.000Z'', foundPhotoPath = None,
        lastClaimedAt = None\<rparr>],
      found_reports = [\<lparr>report_id = 1, report_itemId = ''item-1'', finderName = ''Ben'',
        location = ''Library'', report_photoPath = None, report_status = ''verified'',
        report_createdAt = ''2024-01-01T09:00:00.000Z''\<rparr>],
      claims = [], seq_found_reports = 1, seq_claims = 0\<rparr>"
  by (simp add: store_lost_def store_registered_eq library_fields_def addFoundReport_def
      verifyReportMoveToLost_def Let_def or_null_def js_add1_def)

lemma store_claimed_eq:
  "store_claimed =
     \<lparr>items = [\<lparr>item_id = ''item-1'', itemName = ''Blue Wallet'', studentId = ''S1'',
        ownerName = ''Ana'', category = ''wallets'', strand = None, email = None,
        contact = None, photoPath = Some ''x'', status = ''claimed'',
        createdAt = ''2024-01-01T08:00:00.000Z'', foundPhotoPath = None,
        lastClaimedAt = Some ''2024-01-02T08:00:00.000Z''\<rparr>],
      found_reports = [\<lparr>report_id = 1, report_itemId = ''item-1'', finderName = ''Ben'',
        location = ''Library'', report_photoPath = None, report_status = ''verified'',
        report_createdAt = ''2024-01-01T09:00:00.000Z''\<rparr>],
      claims = [\<lparr>claim_id = 1, claim_itemId = ''item-1'', claimantName = ''Ana'',
        claim_createdAt = ''2024-01-02T08:00:00.000Z''\<rparr>],
      seq_found_reports = 1, seq_claims = 1\<rparr>"
  by (simp add: store_claimed_def store_lost_eq addClaim_def Let_def js_add1_def)

lemma store_photo_eq:
  "store_photo =
     \<lparr>items = items store_registered,
      found_reports = [\<lparr>report_id = 1, report_itemId = ''item-1'', finderName = ''Cy'',
        location = ''Gym'', report_photoPath = Some ''y'', report_status = ''pending'',
        report_createdAt = ''2024-01-01T09:30:00.000Z''\<rparr>],
      claims = [], seq_found_reports = 1, seq_claims = 0\<rparr>"
  by (simp add: store_photo_def store_registered_eq gym_fields_def addFoundReport_def
      Let_def or_null_def js_add1_def)

lemma store_empty_photo_eq:
  "store_empty_photo =
     \<lparr>items = items store_registered, found_reports = [empty_photo_report], claims = [],
      seq_found_reports = 1, seq_claims = 0\<rparr>"
  by (simp add: store_empty_photo_def store_registered_eq importMerge_def math_max_def
      empty_photo_report_def)

lemma reachable_store_registered: "reachable store_registered"
  unfolding store_registered_def by (intro reachable.intros)

lemma reachable_store_claimed: "reachable store_claimed"
  unfolding store_claimed_def store_lost_def by (intro reachable.intros reachable_store_registered)

lemma reachable_store_empty_photo: "reachable store_empty_photo"
  unfolding store_empty_photo_def by (intro reachable.intros reachable_store_registered)

lemma store_big_eq:
  "store_big =
     \<lparr>items = items store_registered, found_reports = [big_report], claims = [big_claim],
      seq_found_reports = 9007199254740992, seq_claims = 9007199254740992\<rparr>"
  by (simp add: store_big_def store_registered_eq importMerge_def math_max_def
      big_report_def big_claim_def empty_photo_report_def)

lemma reachable_store_big: "reachable store_big"
  unfolding store_big_def by (intro reachable.intros reachable_store_registered)

lemma store_duplicate_eq:
  "store_duplicate =
     \<lparr>items = [other_wallet, twin_wallet], found_reports = [], claims = [],
      seq_found_reports = 0, seq_claims = 0\<rparr>"
  by (simp add: store_duplicate_def init_def importMerge_def math_max_def)

lemma reachable_store_duplicate: "reachable store_duplicate"
  unfolding store_duplicate_def by (intro reachable.intros)

section \<open>Claims\<close>

subsection \<open>C1: status transitions\<close>

text \<open>
  C1 as stated fails. \<^verbatim>\<open>addClaim\<close> on a registered item sets its status to
  \<^verbatim>\<open>claimed\<close> without passing through \<^verbatim>\<open>lost\<close>, and \<^verbatim>\<open>verifyReportMoveToLost\<close> on a report
  of a claimed item sets the item back to \<^verbatim>\<open>lost\<close>. Both stores are reached from the
  empty store by public operations.
\<close>

theorem status_skips_and_regresses:
  "reachable store_registered \<and> reachable store_claimed \<and>
   \<not> forward_only (status (items store_registered ! 0))
        (status (items (perform store_registered
           (AddClaim ''item-1'' ''Ana'' ''2024-01-02T08:00:00.000Z'')) ! 0)) \<and>
   \<not> forward_only (status (items store_claimed ! 0))
        (status (items (perform store_claimed (VerifyReportMoveToLost 1)) ! 0))"
proof -
  have a: "status (items (perform store_registered
           (AddClaim ''item-1'' ''Ana'' ''2024-01-02T08:00:00.000Z'')) ! 0) = ''claimed''"
    by (simp add: store_registered_eq addClaim_def Let_def)
  have b: "status (items (perform store_claimed (VerifyReportMoveToLost 1)) ! 0) = ''lost''"
    by (simp add: store_claimed_eq verifyReportMoveToLost_def)
  have c: "status (items store_registered ! 0) = ''registered''"
    by (simp add: store_registered_eq)
  have d: "status (items store_claimed ! 0) = ''claimed''"
    by (simp add: store_claimed_eq)
  show ?thesis
    unfolding a b c d using reachable_store_registered reachable_store_claimed
    by (simp add: forward_only_def)
qed

text \<open>
  C1, amended. For every store and every public operation, each item of the store keeps
  its position and its id, and its status either stays as it was, or is set to
  \<^verbatim>\<open>lost\<close> by \<^verbatim>\<open>verifyReportMoveToLost\<close>, or is set to \<^verbatim>\<open>claimed\<close> by \<^verbatim>\<open>addClaim\<close>, whatever
  it was before. So no operation sets the status of an item to \<^verbatim>\<open>registered\<close>, and
  \<^verbatim>\<open>addItem\<close>, \<^verbatim>\<open>addFoundReport\<close> and \<^verbatim>\<open>importMerge\<close> change the status of no item.
\<close>

theorem status_changes:
  assumes "i < length (items db)"
  shows "length (items db) \<le> length (items (perform db op)) \<and>
     item_id (items (perform db op) ! i) = item_id (items db ! i) \<and>
     (status (items (perform db op) ! i) = status (items db ! i) \<or>
      (\<exists>rid. op = VerifyReportMoveToLost rid) \<and> status (items (perform db op) ! i) = ''lost'' \<or>
      (\<exists>itemId name now. op = AddClaim itemId name now) \<and>
        status (items (perform db op) ! i) = ''claimed'')"
proof (cases op)
  case (AddItem a uuid now)
  with assms show ?thesis by (simp add: addItem_def Let_def nth_append)
next
  case (AddFoundReport a now)
  then show ?thesis by (simp add: addFoundReport_def Let_def)
next
  case (VerifyReportMoveToLost rid)
  show ?thesis
  proof (cases "fst (verifyReportMoveToLost db rid)")
    case False
    then have "snd (verifyReportMoveToLost db rid) = db"
      by (auto simp: verifyReportMoveToLost_def split: option.splits)
    with VerifyReportMoveToLost show ?thesis by simp
  next
    case True
    then obtain p f
      where "items (snd (verifyReportMoveToLost db rid)) = update_first p f (items db)"
        and "\<And>x. item_id (f x) = item_id x" and "\<And>x. status (f x) = ''lost''"
      by (auto simp: verifyReportMoveToLost_def split: option.splits)
    with VerifyReportMoveToLost assms nth_update_first [OF assms, of p f]
    show ?thesis by auto
  qed
next
  case (AddClaim itemId name now)
  show ?thesis
  proof (cases "fst (addClaim db itemId name now)")
    case None
    then have "snd (addClaim db itemId name now) = db"
      by (auto simp: addClaim_def Let_def split: option.splits)
    with AddClaim show ?thesis by simp
  next
    case (Some c)
    then obtain p f
      where "items (snd (addClaim db itemId name now)) = update_first p f (items db)"
        and "\<And>x. item_id (f x) = item_id x" and "\<And>x. status (f x) = ''claimed''"
      by (auto simp: addClaim_def Let_def split: option.splits)
    with AddClaim assms nth_update_first [OF assms, of p f]
    show ?thesis by auto
  qed
next
  case (ImportMerge data)
  obtain new where "items (perform db (ImportMerge data)) = items db @ new"
    using items_perform_import by blast
  with ImportMerge assms show ?thesis by (simp add: nth_append)
qed

theorem status_changes_witness:
  "0 < length (items store_lost) \<and>
   status (items store_lost ! 0) = ''lost'' \<and>
   item_id (items (perform store_lost (AddClaim ''item-1'' ''Ana'' ''2024-01-02T08:00:00.000Z'')) ! 0)
     = item_id (items store_lost ! 0) \<and>
   status (items (perform store_lost (AddClaim ''item-1'' ''Ana'' ''2024-01-02T08:00:00.000Z'')) ! 0)
     = ''claimed''"
proof -
  have h: "0 < length (items store_lost)"
    by (simp add: store_lost_eq)
  have s: "status (items store_lost ! 0) = ''lost''"
    by (simp add: store_lost_eq)
  have c: "status (items (perform store_lost
      (AddClaim ''item-1'' ''Ana'' ''2024-01-02T08:00:00.000Z'')) ! 0) \<noteq> ''lost''"
    by (simp add: store_lost_eq addClaim_def Let_def)
  from status_changes [OF h, of "AddClaim ''item-1'' ''Ana'' ''2024-01-02T08:00:00.000Z''"] h s c
  show ?thesis by auto
qed

subsection \<open>C2: export and import\<close>

text \<open>
  C2. For every store reached from the empty store by public operations,
  \<^verbatim>\<open>importMerge(exportAll())\<close> returns true and the store after it is the store before it:
  no collection gains a record and neither counter changes.
\<close>

theorem import_export_noop:
  assumes "reachable db"
  shows "importMerge db (as_import_data (exportAll db)) = Inr (True, db)"
proof -
  from assms have inv: "seq_inv db" and nn: "seq_nonneg db"
    by (simp_all add: reachable_seq_inv reachable_seq_nonneg)
  have f1: "filter (\<lambda>y. item_id y \<notin> item_id ` set (items db)) (items db) = []"
    and f2: "filter (\<lambda>y. report_id y \<notin> report_id ` set (found_reports db))
        (found_reports db) = []"
    and f3: "filter (\<lambda>y. claim_id y \<notin> claim_id ` set (claims db)) (claims db) = []"
    by (simp_all add: filter_empty_conv)
  have m1: "math_max (seq_found_reports db) (map report_id (found_reports db) @ [0])
      = seq_found_reports db"
    using inv nn by (intro math_max_bounded) (auto simp: seq_inv_def seq_nonneg_def)
  have m2: "math_max (seq_claims db) (map claim_id (claims db) @ [0]) = seq_claims db"
    using inv nn by (intro math_max_bounded) (auto simp: seq_inv_def seq_nonneg_def)
  show ?thesis
    unfolding exportAll_def importMerge_valid [OF structurally_valid_export]
    by (simp add: as_import_data_def f1 f2 f3 m1 m2)
qed

theorem import_export_noop_witness:
  "reachable store_claimed \<and>
   importMerge store_claimed (as_import_data (exportAll store_claimed)) = Inr (True, store_claimed) \<and>
   length (claims store_claimed) = 1 \<and> seq_claims store_claimed = 1"
  using import_export_noop [OF reachable_store_claimed] reachable_store_claimed
  by (simp add: store_claimed_eq)

subsection \<open>C3: verification\<close>

text \<open>
  C3 as stated fails for a report whose \<^verbatim>\<open>photoPath\<close> is the empty string. The source
  tests \<^verbatim>\<open>if (report.photoPath)\<close>, and the empty string is falsy although it is not null:
  the verification succeeds and the item's \<^verbatim>\<open>foundPhotoPath\<close> stays absent. Such a report
  enters the store through \<^verbatim>\<open>importMerge\<close>.
\<close>

theorem empty_photo_not_copied:
  "reachable store_empty_photo \<and>
   fst (verifyReportMoveToLost store_empty_photo 1) = True \<and>
   find (\<lambda>x. report_id x = 1) (found_reports store_empty_photo) = Some empty_photo_report \<and>
   report_itemId empty_photo_report = ''item-1'' \<and>
   report_photoPath empty_photo_report \<noteq> None \<and>
   map item_id (items (snd (verifyReportMoveToLost store_empty_photo 1))) = [''item-1''] \<and>
   map foundPhotoPath (items (snd (verifyReportMoveToLost store_empty_photo 1))) = [None]"
  using reachable_store_empty_photo
  by (simp add: store_empty_photo_eq store_registered_eq verifyReportMoveToLost_def
      empty_photo_report_def)

text \<open>
  C3, amended. If \<^verbatim>\<open>verifyReportMoveToLost\<close> returns true, then afterwards the report it
  found (the first with the given id) has status \<^verbatim>\<open>verified\<close> and is otherwise unchanged,
  the item that a lookup of the report's \<^verbatim>\<open>itemId\<close> finds has status \<^verbatim>\<open>lost\<close>, and if the
  report's \<^verbatim>\<open>photoPath\<close> is a non-empty string then that item's \<^verbatim>\<open>foundPhotoPath\<close> equals
  it. With a null or empty \<^verbatim>\<open>photoPath\<close> the item's \<^verbatim>\<open>foundPhotoPath\<close> is left as it was.
\<close>

theorem verify_success:
  assumes "verifyReportMoveToLost db rid = (True, db')"
  shows "\<exists>report it it'.
     find (\<lambda>x. report_id x = rid) (found_reports db) = Some report \<and>
     find (\<lambda>x. report_id x = rid) (found_reports db') =
       Some (report\<lparr>report_status := ''verified''\<rparr>) \<and>
     getItem db (report_itemId report) = Some it \<and>
     getItem db' (report_itemId report) = Some it' \<and>
     status it' = ''lost'' \<and>
     (truthy (report_photoPath report) \<longrightarrow> foundPhotoPath it' = report_photoPath report) \<and>
     (\<not> truthy (report_photoPath report) \<longrightarrow> foundPhotoPath it' = foundPhotoPath it)"
proof -
  from assms obtain report where
    rep: "find (\<lambda>x. report_id x = rid) (found_reports db) = Some report"
    by (auto simp: verifyReportMoveToLost_def split: option.splits)
  with assms obtain it where
    it: "find (\<lambda>x. item_id x = report_itemId report) (items db) = Some it"
    by (auto simp: verifyReportMoveToLost_def split: option.splits)
  let ?f = "\<lambda>r. r\<lparr>report_status := ''verified''\<rparr>"
  let ?g = "\<lambda>i. if truthy (report_photoPath report)
                 then i\<lparr>status := ''lost'', foundPhotoPath := report_photoPath report\<rparr>
                 else i\<lparr>status := ''lost''\<rparr>"
  from assms rep it have db': "db' = db\<lparr>found_reports :=
        update_first (\<lambda>x. report_id x = rid) ?f (found_reports db),
      items := update_first (\<lambda>x. item_id x = report_itemId report) ?g (items db)\<rparr>"
    by (simp add: verifyReportMoveToLost_def)
  have "report_id report = rid"
    using find_Some_holds [OF rep] by simp
  then have a: "find (\<lambda>x. report_id x = rid) (found_reports db') = Some (?f report)"
    unfolding db' using rep by (simp add: find_update_first)
  have "item_id it = report_itemId report"
    using find_Some_holds [OF it] by simp
  then have "item_id (?g it) = report_itemId report" by simp
  then have b: "getItem db' (report_itemId report) = Some (?g it)"
    unfolding db' getItem_def using it
    by (simp add: find_update_first [where f = ?g])
  have c: "status (?g it) = ''lost''" by simp
  have d: "truthy (report_photoPath report) \<longrightarrow> foundPhotoPath (?g it) = report_photoPath report"
    by simp
  have e: "\<not> truthy (report_photoPath report) \<longrightarrow> foundPhotoPath (?g it) = foundPhotoPath it"
    by simp
  from rep it a b c d e show ?thesis
    unfolding getItem_def by blast
qed

theorem verify_success_witness:
  "fst (verifyReportMoveToLost store_photo 1) = True \<and>
   (\<exists>report it'.
      find (\<lambda>x. report_id x = 1) (found_reports store_photo) = Some report \<and>
      report_itemId report = ''item-1'' \<and> report_photoPath report = Some ''y'' \<and>
      find (\<lambda>x. report_id x = 1) (found_reports (snd (verifyReportMoveToLost store_photo 1))) =
        Some (report\<lparr>report_status := ''verified''\<rparr>) \<and>
      getItem (snd (verifyReportMoveToLost store_photo 1)) ''item-1'' = Some it' \<and>
      status it' = ''lost'' \<and> foundPhotoPath it' = Some ''y'')"
proof -
  have v: "fst (verifyReportMoveToLost store_photo 1) = True"
    by (simp add: store_photo_eq store_registered_eq verifyReportMoveToLost_def)
  then have p: "verifyReportMoveToLost store_photo 1 =
      (True, snd (verifyReportMoveToLost store_photo 1))"
    by (metis prod.collapse)
  have r: "find (\<lambda>x. report_id x = 1) (found_reports store_photo) =
      Some \<lparr>report_id = 1, report_itemId = ''item-1'', finderName = ''Cy'',
        location = ''Gym'', report_photoPath = Some ''y'', report_status = ''pending'',
        report_createdAt = ''2024-01-01T09:30:00.000Z''\<rparr>"
    by (simp add: store_photo_eq)
  from verify_success [OF p] r v show ?thesis by auto
qed

subsection \<open>C4: claiming\<close>

text \<open>
  C4 as stated fails in two places. The id is \<^verbatim>\<open>counter + 1\<close> in double arithmetic: in a
  store whose claims counter is \<open>2^53\<close> (reached by importing a claim with that id) the
  claim returned has id \<open>2^53\<close>, not \<open>2^53 + 1\<close>. And \<^verbatim>\<open>find\<close> takes the first item with the
  id: in a store with two items of the same id (reached by importing both in one
  snapshot) the second stays \<^verbatim>\<open>registered\<close>.
\<close>

theorem addClaim_rounds_and_first_only:
  "reachable store_big \<and>
   map item_id (items store_big) = [''item-1''] \<and>
   seq_claims store_big = 9007199254740992 \<and>
   map_option claim_id (fst (addClaim store_big ''item-1'' ''Ana'' ''2024-01-02T08:00:00.000Z''))
     = Some 9007199254740992 \<and>
   map_option claim_id (fst (addClaim store_big ''item-1'' ''Ana'' ''2024-01-02T08:00:00.000Z''))
     \<noteq> Some (seq_claims store_big + 1) \<and>
   reachable store_duplicate \<and>
   map item_id (items store_duplicate) = [''item-1'', ''item-1''] \<and>
   map status (items store_duplicate) = [''registered'', ''registered''] \<and>
   map status (items (snd (addClaim store_duplicate ''item-1'' ''Bo'' ''2024-01-02T08:00:00.000Z'')))
     = [''claimed'', ''registered'']"
proof -
  have a: "map_option claim_id
      (fst (addClaim store_big ''item-1'' ''Ana'' ''2024-01-02T08:00:00.000Z''))
    = Some 9007199254740992"
    by (simp add: store_big_eq store_registered_eq addClaim_def Let_def js_add1_def)
  have b: "map status
      (items (snd (addClaim store_duplicate ''item-1'' ''Bo'' ''2024-01-02T08:00:00.000Z'')))
    = [''claimed'', ''registered'']"
    by (simp add: store_duplicate_eq other_wallet_def twin_wallet_def addClaim_def Let_def)
  have c: "map item_id (items store_duplicate) = [''item-1'', ''item-1'']"
    "map status (items store_duplicate) = [''registered'', ''registered'']"
    by (simp_all add: store_duplicate_eq other_wallet_def twin_wallet_def)
  have d: "map item_id (items store_big) = [''item-1'']"
    "seq_claims store_big = 9007199254740992"
    by (simp_all add: store_big_eq store_registered_eq)
  show ?thesis
    unfolding a b c d using reachable_store_big reachable_store_duplicate by simp
qed

text \<open>
  C4, amended. In a store that holds an item with the given id, \<^verbatim>\<open>addClaim\<close> returns a claim
  whose id is the claims counter plus one in double arithmetic, which is exactly the
  counter plus one while the counter is below \<open>2^53\<close>; the counter is advanced to it and
  the claim is appended to the claims. Afterwards the first item with that id, which is
  the one a lookup of the id finds, has status \<^verbatim>\<open>claimed\<close> and its \<^verbatim>\<open>lastClaimedAt\<close> is the
  claim's \<^verbatim>\<open>createdAt\<close>; every other item, also one with the same id, is as it was.
\<close>

theorem addClaim_success:
  assumes "\<exists>x\<in>set (items db). item_id x = itemId"
  shows "\<exists>c db' it.
           addClaim db itemId name now = (Some c, db') \<and>
           claim_id c = js_add1 (seq_claims db) \<and>
           (- 9007199254740992 \<le> seq_claims db \<and> seq_claims db < 9007199254740992 \<longrightarrow>
              claim_id c = seq_claims db + 1) \<and>
           claim_itemId c = itemId \<and> claimantName c = name \<and> claim_createdAt c = now \<and>
           claims db' = claims db @ [c] \<and>
           seq_claims db' = claim_id c \<and>
           getItem db' itemId = Some it \<and>
           status it = ''claimed'' \<and>
           lastClaimedAt it = Some (claim_createdAt c) \<and>
           length (items db') = length (items db) \<and>
           (\<forall>j<length (items db).
              items db' ! j =
                (if item_id (items db ! j) = itemId \<and>
                    (\<forall>k<j. item_id (items db ! k) \<noteq> itemId)
                 then (items db ! j)\<lparr>status := ''claimed'',
                        lastClaimedAt := Some (claim_createdAt c)\<rparr>
                 else items db ! j))"
proof -
  from assms obtain x where x: "find (\<lambda>x. item_id x = itemId) (items db) = Some x"
    using find_Some_iff_ex [of "\<lambda>x. item_id x = itemId" "items db"] by blast
  then have idx: "item_id x = itemId"
    by (auto dest: find_Some_holds)
  let ?f = "\<lambda>i. i\<lparr>status := ''claimed'', lastClaimedAt := Some now\<rparr>"
  let ?c = "\<lparr>claim_id = js_add1 (seq_claims db), claim_itemId = itemId, claimantName = name,
              claim_createdAt = now\<rparr>"
  let ?db' = "db\<lparr>seq_claims := js_add1 (seq_claims db), claims := claims db @ [?c],
      items := update_first (\<lambda>x. item_id x = itemId) ?f (items db)\<rparr>"
  have r: "addClaim db itemId name now = (Some ?c, ?db')"
    using x by (simp add: addClaim_def Let_def)
  have g: "getItem ?db' itemId = Some (?f x)"
    unfolding getItem_def using x idx by (simp add: find_update_first [where f = ?f])
  have e: "- 9007199254740992 \<le> seq_claims db \<and> seq_claims db < 9007199254740992 \<longrightarrow>
      claim_id ?c = seq_claims db + 1"
    by (simp add: js_add1_exact)
  have n: "\<forall>j<length (items db).
      items ?db' ! j =
        (if item_id (items db ! j) = itemId \<and> (\<forall>k<j. item_id (items db ! k) \<noteq> itemId)
         then (items db ! j)\<lparr>status := ''claimed'', lastClaimedAt := Some (claim_createdAt ?c)\<rparr>
         else items db ! j)"
  proof (intro allI impI)
    fix j
    assume "j < length (items db)"
    then show "items ?db' ! j =
        (if item_id (items db ! j) = itemId \<and> (\<forall>k<j. item_id (items db ! k) \<noteq> itemId)
         then (items db ! j)\<lparr>status := ''claimed'', lastClaimedAt := Some (claim_createdAt ?c)\<rparr>
         else items db ! j)"
      using nth_update_first_exact [of j "items db" "\<lambda>x. item_id x = itemId" ?f]
      by auto
  qed
  have "addClaim db itemId name now = (Some ?c, ?db') \<and>
      claim_id ?c = js_add1 (seq_claims db) \<and>
      (- 9007199254740992 \<le> seq_claims db \<and> seq_claims db < 9007199254740992 \<longrightarrow>
         claim_id ?c = seq_claims db + 1) \<and>
      claim_itemId ?c = itemId \<and> claimantName ?c = name \<and> claim_createdAt ?c = now \<and>
      claims ?db' = claims db @ [?c] \<and>
      seq_claims ?db' = claim_id ?c \<and>
      getItem ?db' itemId = Some (?f x) \<and>
      status (?f x) = ''claimed'' \<and>
      lastClaimedAt (?f x) = Some (claim_createdAt ?c) \<and>
      length (items ?db') = length (items db) \<and>
      (\<forall>j<length (items db).
         items ?db' ! j =
           (if item_id (items db ! j) = itemId \<and> (\<forall>k<j. item_id (items db ! k) \<noteq> itemId)
            then (items db ! j)\<lparr>status := ''claimed'',
                   lastClaimedAt := Some (claim_createdAt ?c)\<rparr>
            else items db ! j))"
    using r g e n by simp
  then show ?thesis by blast
qed

theorem addClaim_success_witness:
  "(\<exists>x\<in>set (items store_registered). item_id x = ''item-1'') \<and>
   seq_claims store_registered = 0 \<and>
   (\<exists>c db' it.
      addClaim store_registered ''item-1'' ''Ana'' ''2024-01-02T08:00:00.000Z'' = (Some c, db') \<and>
      claim_id c = 1 \<and> getItem db' ''item-1'' = Some it \<and> status it = ''claimed'' \<and>
      lastClaimedAt it = Some ''2024-01-02T08:00:00.000Z'')"
proof -
  have h: "\<exists>x\<in>set (items store_registered). item_id x = ''item-1''"
    by (simp add: store_registered_eq)
  have s: "seq_claims store_registered = 0"
    by (simp add: store_registered_eq)
  from addClaim_success [OF h, of "''Ana''" "''2024-01-02T08:00:00.000Z''"]
  obtain c db' it where
    "addClaim store_registered ''item-1'' ''Ana'' ''2024-01-02T08:00:00.000Z'' = (Some c, db')"
    and "- 9007199254740992 \<le> seq_claims store_registered \<and>
        seq_claims store_registered < 9007199254740992 \<longrightarrow>
        claim_id c = seq_claims store_registered + 1"
    and "claim_createdAt c = ''2024-01-02T08:00:00.000Z''"
    and "getItem db' ''item-1'' = Some it" and "status it = ''claimed''"
    and "lastClaimedAt it = Some (claim_createdAt c)"
    by blast
  with h s show ?thesis by auto
qed

subsection \<open>C5: not found\<close>

text \<open>
  C5. \<^verbatim>\<open>verifyReportMoveToLost\<close> returns false and leaves the store as it was when no
  report has the given id, and when the report found names an item id that no item has;
  \<^verbatim>\<open>addClaim\<close> returns null and leaves the store as it was when no item has the given id.
  Neither function has a raising path.
\<close>

theorem not_found_unchanged:
  "(find (\<lambda>x. report_id x = rid) (found_reports db) = None \<longrightarrow>
      verifyReportMoveToLost db rid = (False, db)) \<and>
   (\<forall>r. find (\<lambda>x. report_id x = rid) (found_reports db) = Some r \<and>
        getItem db (report_itemId r) = None \<longrightarrow>
      verifyReportMoveToLost db rid = (False, db)) \<and>
   (getItem db itemId = None \<longrightarrow> addClaim db itemId name now = (None, db))"
  by (simp add: verifyReportMoveToLost_def addClaim_def getItem_def)

theorem not_found_unchanged_witness:
  "find (\<lambda>x. report_id x = 7) (found_reports store_lost) = None \<and>
   verifyReportMoveToLost store_lost 7 = (False, store_lost) \<and>
   getItem store_lost ''item-9'' = None \<and>
   addClaim store_lost ''item-9'' ''Ana'' ''2024-01-02T08:00:00.000Z'' = (None, store_lost)"
proof -
  have a: "find (\<lambda>x. report_id x = 7) (found_reports store_lost) = None"
    by (simp add: store_lost_eq)
  have b: "getItem store_lost ''item-9'' = None"
    by (simp add: store_lost_eq getItem_def)
  from not_found_unchanged [of 7 store_lost "''item-9''" "''Ana''"
      "''2024-01-02T08:00:00.000Z''"] a b
  show ?thesis by simp
qed

subsection \<open>C6: counters after an import\<close>

text \<open>
  C6. For every store reached from the empty store by public operations and every
  structurally valid snapshot, \<^verbatim>\<open>importMerge\<close> returns true, and afterwards each counter is
  the maximum of its previous value and the ids of its collection after the merge. If the
  merged found reports hold a record with id 57, the next \<^verbatim>\<open>addFoundReport\<close> returns a
  report with an id of at least 58. (The source also takes 0 into the maximum; a counter
  of a reached store is never negative.)
\<close>

theorem importMerge_sequences:
  assumes "reachable db" and "structurally_valid data"
  shows "\<exists>db'. importMerge db data = Inr (True, db') \<and>
     seq_found_reports db' =
       Max (insert (seq_found_reports db) (report_id ` set (found_reports db'))) \<and>
     seq_claims db' = Max (insert (seq_claims db) (claim_id ` set (claims db'))) \<and>
     ((\<exists>r\<in>set (found_reports db'). report_id r = 57) \<longrightarrow>
        58 \<le> report_id (fst (addFoundReport db' a now)))"
proof -
  from assms(1) have nn: "0 \<le> seq_found_reports db" "0 \<le> seq_claims db"
    using reachable_seq_nonneg [of db] by (simp_all add: seq_nonneg_def)
  obtain db' where db': "importMerge db data = Inr (True, db')"
    and fr: "seq_found_reports db' =
        math_max (seq_found_reports db) (map report_id (found_reports db') @ [0])"
    and cl: "seq_claims db' = math_max (seq_claims db) (map claim_id (claims db') @ [0])"
    using importMerge_valid [OF assms(2), of db] by simp
  have a: "seq_found_reports db' =
       Max (insert (seq_found_reports db) (report_id ` set (found_reports db')))"
    using fr math_max_zero [OF nn(1), of "map report_id (found_reports db')"] by simp
  have b: "seq_claims db' = Max (insert (seq_claims db) (claim_id ` set (claims db')))"
    using cl math_max_zero [OF nn(2), of "map claim_id (claims db')"] by simp
  have c: "58 \<le> report_id (fst (addFoundReport db' a now))"
    if "\<exists>r\<in>set (found_reports db'). report_id r = 57"
  proof -
    from that have "57 \<in> set (map report_id (found_reports db') @ [0])" by force
    then have "57 \<le> seq_found_reports db'"
      unfolding fr by (rule math_max_ge)
    then have "58 \<le> js_add1 (seq_found_reports db')"
      using js_add1_ge [of "seq_found_reports db'"]
        js_add1_exact [of "seq_found_reports db'"]
      by (cases "seq_found_reports db' < 9007199254740992") simp_all
    then show ?thesis by (simp add: addFoundReport_def Let_def)
  qed
  from db' a b c show ?thesis by blast
qed

lemma import_snapshot:
  "importMerge store_claimed snapshot =
     Inr (True, store_claimed\<lparr>items := items store_claimed @ [phone],
                              found_reports := found_reports store_claimed @ [report_57],
                              seq_found_reports := 57\<rparr>)"
  by (simp add: importMerge_def snapshot_def store_claimed_eq other_wallet_def phone_def
      report_57_def empty_photo_report_def math_max_def)

lemma structurally_valid_snapshot: "structurally_valid snapshot"
  by (simp add: snapshot_def)

theorem importMerge_sequences_witness:
  "reachable store_claimed \<and> structurally_valid snapshot \<and>
   (\<exists>db'. importMerge store_claimed snapshot = Inr (True, db') \<and>
      (\<exists>r\<in>set (found_reports db'). report_id r = 57) \<and>
      seq_found_reports db' = 57 \<and> seq_claims db' = 1 \<and>
      58 \<le> report_id (fst (addFoundReport db' library_fields ''2024-01-03T08:00:00.000Z'')))"
proof -
  obtain db' where d: "importMerge store_claimed snapshot = Inr (True, db')"
    and c: "(\<exists>r\<in>set (found_reports db'). report_id r = 57) \<longrightarrow>
        58 \<le> report_id (fst (addFoundReport db' library_fields ''2024-01-03T08:00:00.000Z''))"
    using importMerge_sequences [OF reachable_store_claimed structurally_valid_snapshot,
        of library_fields "''2024-01-03T08:00:00.000Z''"]
    by blast
  from d have eq: "db' = store_claimed\<lparr>items := items store_claimed @ [phone],
      found_reports := found_reports store_claimed @ [report_57], seq_found_reports := 57\<rparr>"
    by (simp add: import_snapshot)
  have m: "\<exists>r\<in>set (found_reports db'). report_id r = 57"
    unfolding eq by (simp add: report_57_def)
  have s: "seq_found_reports db' = 57" "seq_claims db' = 1"
    unfolding eq by (simp_all add: store_claimed_eq)
  from d m s c reachable_store_claimed structurally_valid_snapshot
  show ?thesis by blast
qed

subsection \<open>C7: an import keeps what is there\<close>

text \<open>
  C7. For every store and every structurally valid snapshot, \<^verbatim>\<open>importMerge\<close> returns true
  and each collection afterwards is the collection before, unchanged and in place,
  followed by those incoming records whose id no record of the collection had before the
  merge. So no existing record is overwritten or deleted, and an incoming record whose
  id was present is not added.
\<close>

theorem importMerge_keeps_existing:
  assumes "structurally_valid data"
  shows "\<exists>db'. importMerge db data = Inr (True, db') \<and>
     items db' = items db @ filter (\<lambda>y. item_id y \<notin> item_id ` set (items db))
                   (records_of (d_items (properties data))) \<and>
     found_reports db' = found_reports db @
         filter (\<lambda>y. report_id y \<notin> report_id ` set (found_reports db))
                   (records_of (d_found_reports (properties data))) \<and>
     claims db' = claims db @ filter (\<lambda>y. claim_id y \<notin> claim_id ` set (claims db))
                   (records_of (d_claims (properties data)))"
  by (simp add: importMerge_valid [OF assms])

theorem importMerge_keeps_existing_witness:
  "structurally_valid snapshot \<and>
   records_of (d_items (properties snapshot)) = [other_wallet, phone] \<and>
   item_id other_wallet = ''item-1'' \<and>
   (\<exists>db'. importMerge store_claimed snapshot = Inr (True, db') \<and>
      items db' = items store_claimed @ [phone] \<and>
      found_reports db' = found_reports store_claimed @ [report_57] \<and>
      claims db' = claims store_claimed)"
proof -
  have r: "records_of (d_items (properties snapshot)) = [other_wallet, phone]"
    by (simp add: snapshot_def)
  have i: "item_id other_wallet = ''item-1''"
    by (simp add: other_wallet_def)
  have f1: "filter (\<lambda>y. item_id y \<notin> item_id ` set (items store_claimed))
      (records_of (d_items (properties snapshot))) = [phone]"
    by (simp add: snapshot_def store_claimed_eq other_wallet_def phone_def)
  have f2: "filter (\<lambda>y. report_id y \<notin> report_id ` set (found_reports store_claimed))
      (records_of (d_found_reports (properties snapshot))) = [report_57]"
    by (simp add: snapshot_def store_claimed_eq report_57_def)
  have f3: "filter (\<lambda>y. claim_id y \<notin> claim_id ` set (claims store_claimed))
      (records_of (d_claims (properties snapshot))) = []"
    by (simp add: snapshot_def)
  from importMerge_keeps_existing [OF structurally_valid_snapshot, of store_claimed]
  have "\<exists>db'. importMerge store_claimed snapshot = Inr (True, db') \<and>
      items db' = items store_claimed @ [phone] \<and>
      found_reports db' = found_reports store_claimed @ [report_57] \<and>
      claims db' = claims store_claimed"
    unfolding f1 f2 f3 by simp
  with r i structurally_valid_snapshot show ?thesis by blast
qed

subsection \<open>C8: what an import returns\<close>

text \<open>
  C8 as stated fails for an array. \<^verbatim>\<open>typeof\<close> of an array is \<^verbatim>\<open>"object"\<close> and an array
  is truthy, so the guard lets it pass; its three collections read as absent, nothing is
  merged, and the call returns true.
\<close>

theorem array_accepted:
  "\<not> well_formed_record JsArray \<and>
   importMerge store_claimed JsArray = Inr (True, store_claimed)"
  by (simp add: importMerge_def store_claimed_eq math_max_def)

text \<open>
  C8, amended. \<^verbatim>\<open>importMerge\<close> returns false, without raising and without changing the
  store, exactly for the values that are falsy or not of type object: undefined, null,
  booleans, numbers and strings. It returns true without raising for an array, and for
  every structurally valid object, also when nothing is merged.
\<close>

theorem importMerge_result:
  "(case data of
      JsObject d \<Rightarrow> structurally_valid data \<longrightarrow> (\<exists>db'. importMerge db data = Inr (True, db'))
    | JsArray \<Rightarrow> (\<exists>db'. importMerge db data = Inr (True, db'))
    | _ \<Rightarrow> importMerge db data = Inr (False, db))"
proof (cases data)
  case (JsObject d)
  then show ?thesis using importMerge_valid [of data db] by auto
qed (simp_all add: importMerge_def)

theorem importMerge_result_witness:
  "importMerge store_claimed JsNull = Inr (False, store_claimed) \<and>
   importMerge store_claimed (JsString ''abc'') = Inr (False, store_claimed) \<and>
   structurally_valid (JsObject \<lparr>d_items = Falsy, d_found_reports = Falsy, d_claims = Falsy\<rparr>) \<and>
   (\<exists>db'. importMerge store_claimed
       (JsObject \<lparr>d_items = Falsy, d_found_reports = Falsy, d_claims = Falsy\<rparr>)
     = Inr (True, db'))"
  using importMerge_result [where data = JsNull and db = store_claimed]
    importMerge_result [where data = "JsString ''abc''" and db = store_claimed]
    importMerge_result
      [where data = "JsObject \<lparr>d_items = Falsy, d_found_reports = Falsy, d_claims = Falsy\<rparr>"
         and db = store_claimed]
  by simp

subsection \<open>C9: the items of a student\<close>

text \<open>
  C9 as stated fails on ties. The comparator returns \<open>-1\<close> for two items with the same
  \<^verbatim>\<open>createdAt\<close> whichever comes first, and never 0, so the sort is not told that they are
  equal. With the comparator called as in the model, the item registered later comes out
  first.
\<close>

theorem ties_not_in_insertion_order:
  "map item_id (filter (\<lambda>it. studentId it = ''S1'') (items store_ties)) = [''item-1'', ''item-2''] \<and>
   map createdAt (items store_ties) = [''2024-01-01T08:00:00.000Z'', ''2024-01-01T08:00:00.000Z''] \<and>
   by_createdAt_desc (items store_ties ! 0) (items store_ties ! 1) = - 1 \<and>
   by_createdAt_desc (items store_ties ! 1) (items store_ties ! 0) = - 1 \<and>
   map item_id (listItemsByStudent store_ties ''S1'') = [''item-2'', ''item-1'']"
  by (simp add: store_ties_def store_registered_eq addItem_def Let_def wallet_fields_def
      listItemsByStudent_def array_sort_def by_createdAt_desc_def)

text \<open>
  C9, amended. \<^verbatim>\<open>listItemsByStudent\<close> returns exactly the items whose \<^verbatim>\<open>studentId\<close> equals
  the argument (the strings compared as they are), each as often as the store holds it,
  ordered by \<^verbatim>\<open>createdAt\<close> descending. The order among items with equal \<^verbatim>\<open>createdAt\<close> is
  not part of the statement.
\<close>

theorem listItemsByStudent_sorted:
  "mset (listItemsByStudent db sid) = mset (filter (\<lambda>it. studentId it = sid) (items db)) \<and>
   sorted_wrt (\<lambda>a b. createdAt b \<le> createdAt a) (listItemsByStudent db sid)"
proof
  show "mset (listItemsByStudent db sid) = mset (filter (\<lambda>it. studentId it = sid) (items db))"
    unfolding listItemsByStudent_def by (rule mset_array_sort)
  show "sorted_wrt (\<lambda>a b. createdAt b \<le> createdAt a) (listItemsByStudent db sid)"
    unfolding listItemsByStudent_def array_sort_def by (rule desc_foldl_insert) simp
qed

theorem listItemsByStudent_sorted_witness:
  "mset (listItemsByStudent store_ties ''S1'') = mset (items store_ties) \<and>
   mset (listItemsByStudent store_ties ''s1'') = {#} \<and>
   sorted_wrt (\<lambda>a b. createdAt b \<le> createdAt a) (listItemsByStudent store_ties ''S1'')"
proof -
  have a: "filter (\<lambda>it. studentId it = ''S1'') (items store_ties) = items store_ties"
    by (simp add: store_ties_def store_registered_eq addItem_def Let_def wallet_fields_def)
  have b: "filter (\<lambda>it. studentId it = ''s1'') (items store_ties) = []"
    by (simp add: store_ties_def store_registered_eq addItem_def Let_def wallet_fields_def)
  from listItemsByStudent_sorted [of store_ties "''S1''"]
    listItemsByStudent_sorted [of store_ties "''s1''"]
  show ?thesis unfolding a b by simp
qed

subsection \<open>C10: the counters bound the ids\<close>

text \<open>
  C10 as stated fails on its consequence. The counters do bound the ids, but the id
  issued is \<^verbatim>\<open>counter + 1\<close> in double arithmetic: after a found report and a claim with id
  \<open>2^53\<close> have been imported, \<^verbatim>\<open>addFoundReport\<close> and \<^verbatim>\<open>addClaim\<close> issue \<open>2^53\<close> again, the id of
  the imported record.
\<close>

theorem issued_id_repeats:
  "reachable store_big \<and> seq_inv store_big \<and>
   map report_id (found_reports store_big) = [9007199254740992] \<and>
   report_id (fst (addFoundReport store_big library_fields ''2024-01-03T08:00:00.000Z''))
     = 9007199254740992 \<and>
   map claim_id (claims store_big) = [9007199254740992] \<and>
   map_option claim_id (fst (addClaim store_big ''item-1'' ''Ana'' ''2024-01-03T08:00:00.000Z''))
     = Some 9007199254740992"
proof -
  have a: "map report_id (found_reports store_big) = [9007199254740992]"
    "map claim_id (claims store_big) = [9007199254740992]"
    by (simp_all add: store_big_eq big_report_def big_claim_def)
  have b: "report_id (fst (addFoundReport store_big library_fields ''2024-01-03T08:00:00.000Z''))
      = 9007199254740992"
    by (simp add: store_big_eq addFoundReport_def Let_def js_add1_def)
  have c: "map_option claim_id
      (fst (addClaim store_big ''item-1'' ''Ana'' ''2024-01-03T08:00:00.000Z''))
      = Some 9007199254740992"
    by (simp add: store_big_eq store_registered_eq addClaim_def Let_def js_add1_def)
  show ?thesis
    unfolding a b c using reachable_store_big reachable_seq_inv [OF reachable_store_big]
    by simp
qed

text \<open>
  C10, amended. In the empty store no record of a sequenced collection has an id above
  the collection's counter; every public operation preserves this; so it holds in every
  store reached from the empty store, where the counters are also not negative. The id
  that \<^verbatim>\<open>addFoundReport\<close> or \<^verbatim>\<open>addClaim\<close> issues is the counter plus one in double
  arithmetic. Where the bound holds and the counter is below \<open>2^53\<close> (and not below
  \<open>- 2^53\<close>), the issued id is exactly the counter plus one and is the id of no existing
  record of the collection, imported records included.
\<close>

theorem sequence_invariant:
  "seq_inv init \<and>
   (seq_inv db \<longrightarrow> seq_inv (perform db op)) \<and>
   (reachable db \<longrightarrow> seq_inv db \<and> seq_nonneg db) \<and>
   report_id (fst (addFoundReport db a now)) = js_add1 (seq_found_reports db) \<and>
   (seq_inv db \<and> - 9007199254740992 \<le> seq_found_reports db \<and>
      seq_found_reports db < 9007199254740992 \<longrightarrow>
      report_id (fst (addFoundReport db a now)) = seq_found_reports db + 1 \<and>
      report_id (fst (addFoundReport db a now)) \<notin> report_id ` set (found_reports db)) \<and>
   (\<forall>c. fst (addClaim db itemId name now) = Some c \<longrightarrow> claim_id c = js_add1 (seq_claims db)) \<and>
   (seq_inv db \<and> - 9007199254740992 \<le> seq_claims db \<and> seq_claims db < 9007199254740992 \<longrightarrow>
      (\<forall>c. fst (addClaim db itemId name now) = Some c \<longrightarrow>
         claim_id c = seq_claims db + 1 \<and> claim_id c \<notin> claim_id ` set (claims db)))"
proof -
  have fresh_r: "seq_found_reports db + 1 \<notin> report_id ` set (found_reports db)" if "seq_inv db"
    using that by (fastforce simp: seq_inv_def)
  have fresh_c: "seq_claims db + 1 \<notin> claim_id ` set (claims db)" if "seq_inv db"
    using that by (fastforce simp: seq_inv_def)
  have r: "report_id (fst (addFoundReport db a now)) = js_add1 (seq_found_reports db)"
    by (simp add: addFoundReport_def Let_def)
  have c: "claim_id c = js_add1 (seq_claims db)"
    if "fst (addClaim db itemId name now) = Some c" for c
    using that by (auto simp: addClaim_def Let_def split: option.splits)
  have p1: "seq_inv db \<longrightarrow> seq_inv (perform db op)"
    by (simp add: seq_inv_perform)
  have p2: "reachable db \<longrightarrow> seq_inv db \<and> seq_nonneg db"
    by (simp add: reachable_seq_inv reachable_seq_nonneg)
  have p3: "seq_inv db \<and> - 9007199254740992 \<le> seq_found_reports db \<and>
      seq_found_reports db < 9007199254740992 \<longrightarrow>
      report_id (fst (addFoundReport db a now)) = seq_found_reports db + 1 \<and>
      report_id (fst (addFoundReport db a now)) \<notin> report_id ` set (found_reports db)"
    using r fresh_r by (simp add: js_add1_exact)
  have p4: "seq_inv db \<and> - 9007199254740992 \<le> seq_claims db \<and>
      seq_claims db < 9007199254740992 \<longrightarrow>
      (\<forall>c. fst (addClaim db itemId name now) = Some c \<longrightarrow>
         claim_id c = seq_claims db + 1 \<and> claim_id c \<notin> claim_id ` set (claims db))"
    using c fresh_c by (auto simp: js_add1_exact)
  from seq_inv_init p1 p2 r p3 c p4 show ?thesis by blast
qed

lemma import_snapshot_perform:
  "perform store_claimed (ImportMerge snapshot) =
     store_claimed\<lparr>items := items store_claimed @ [phone],
                   found_reports := found_reports store_claimed @ [report_57],
                   seq_found_reports := 57\<rparr>"
  by (simp add: import_snapshot)

theorem sequence_invariant_witness:
  "reachable (perform store_claimed (ImportMerge snapshot)) \<and>
   seq_inv (perform store_claimed (ImportMerge snapshot)) \<and>
   seq_found_reports (perform store_claimed (ImportMerge snapshot)) = 57 \<and>
   map report_id (found_reports (perform store_claimed (ImportMerge snapshot))) = [1, 57] \<and>
   report_id (fst (addFoundReport (perform store_claimed (ImportMerge snapshot)) library_fields
     ''2024-01-03T08:00:00.000Z'')) = 58 \<and>
   58 \<notin> report_id ` set (found_reports (perform store_claimed (ImportMerge snapshot)))"
proof -
  let ?db = "perform store_claimed (ImportMerge snapshot)"
  have r: "reachable ?db"
    by (intro reachable.intros reachable_store_claimed)
  have i: "map report_id (found_reports ?db) = [1, 57]"
    unfolding import_snapshot_perform by (simp add: store_claimed_eq report_57_def)
  have s: "seq_found_reports ?db = 57"
    unfolding import_snapshot_perform by simp
  have b: "- 9007199254740992 \<le> seq_found_reports ?db"
    "seq_found_reports ?db < 9007199254740992"
    unfolding s by simp_all
  note t = sequence_invariant [where db = ?db and a = library_fields
      and now = "''2024-01-03T08:00:00.000Z''"]
  from t r have inv: "seq_inv ?db" by blast
  from t inv b
  have "report_id (fst (addFoundReport ?db library_fields ''2024-01-03T08:00:00.000Z''))
      = seq_found_reports ?db + 1"
    and "report_id (fst (addFoundReport ?db library_fields ''2024-01-03T08:00:00.000Z''))
      \<notin> report_id ` set (found_reports ?db)"
    by blast+
  with r i s inv show ?thesis by simp
qed

section \<open>Further properties\<close>

lemma found_reports_perform_import:
  "\<exists>new. found_reports (perform db (ImportMerge data)) = found_reports db @ new"
proof (cases "importMerge db data")
  case (Inl e)
  then show ?thesis by simp
next
  case (Inr res)
  obtain r db' where res: "res = (r, db')" by (cases res)
  show ?thesis
  proof (cases "\<not> truthy_data data \<or> typeof data \<noteq> ''object''")
    case True
    with Inr res show ?thesis by (simp add: importMerge_def)
  next
    case False
    with Inr res obtain frs
      where "mergeArray report_id (found_reports db) (d_found_reports (properties data)) = Inr frs"
        and "found_reports db' = frs"
      by (auto simp: importMerge_def split: sum.splits)
    with Inr res show ?thesis by (auto dest: mergeArray_prefix)
  qed
qed

text \<open>
  X1. A found report never goes back from \<^verbatim>\<open>verified\<close> to \<^verbatim>\<open>pending\<close>: under every public
  operation each found report of the store keeps its position and its id, and its status
  either stays as it was or is set to \<^verbatim>\<open>verified\<close> by \<^verbatim>\<open>verifyReportMoveToLost\<close>.
\<close>

theorem report_status_changes:
  assumes "i < length (found_reports db)"
  shows "length (found_reports db) \<le> length (found_reports (perform db op)) \<and>
     report_id (found_reports (perform db op) ! i) = report_id (found_reports db ! i) \<and>
     (report_status (found_reports (perform db op) ! i) = report_status (found_reports db ! i) \<or>
      (\<exists>rid. op = VerifyReportMoveToLost rid) \<and>
        report_status (found_reports (perform db op) ! i) = ''verified'')"
proof (cases op)
  case (AddItem a uuid now)
  then show ?thesis by (simp add: addItem_def Let_def)
next
  case (AddFoundReport a now)
  with assms show ?thesis by (simp add: addFoundReport_def Let_def nth_append)
next
  case (VerifyReportMoveToLost rid)
  show ?thesis
  proof (cases "fst (verifyReportMoveToLost db rid)")
    case False
    then have "snd (verifyReportMoveToLost db rid) = db"
      by (auto simp: verifyReportMoveToLost_def split: option.splits)
    with VerifyReportMoveToLost show ?thesis by simp
  next
    case True
    then obtain p f
      where "found_reports (snd (verifyReportMoveToLost db rid))
          = update_first p f (found_reports db)"
        and "\<And>x. report_id (f x) = report_id x" and "\<And>x. report_status (f x) = ''verified''"
      by (auto simp: verifyReportMoveToLost_def split: option.splits)
    with VerifyReportMoveToLost assms nth_update_first [OF assms, of p f]
    show ?thesis by auto
  qed
next
  case (AddClaim itemId name now)
  then show ?thesis
    by (auto simp: addClaim_def Let_def split: option.splits)
next
  case (ImportMerge data)
  obtain new where "found_reports (perform db (ImportMerge data)) = found_reports db @ new"
    using found_reports_perform_import by blast
  with ImportMerge assms show ?thesis by (simp add: nth_append)
qed

theorem report_status_changes_witness:
  "0 < length (found_reports store_lost) \<and>
   report_status (found_reports store_lost ! 0) = ''verified'' \<and>
   report_status (found_reports (perform store_lost (VerifyReportMoveToLost 1)) ! 0) = ''verified'' \<and>
   report_status (found_reports (perform store_lost (ImportMerge snapshot)) ! 0) = ''verified''"
proof -
  have h: "0 < length (found_reports store_lost)"
    by (simp add: store_lost_eq)
  have s: "report_status (found_reports store_lost ! 0) = ''verified''"
    by (simp add: store_lost_eq)
  from report_status_changes [OF h, of "VerifyReportMoveToLost 1"]
    report_status_changes [OF h, of "ImportMerge snapshot"] h s
  show ?thesis by auto
qed

text \<open>
  X2. \<^verbatim>\<open>addFoundReport\<close> does not look the item up: whatever \<^verbatim>\<open>itemId\<close> it is given, it
  appends a pending report with that \<^verbatim>\<open>itemId\<close> and the next sequence id (the counter plus
  one in double arithmetic), advances the counter to it, and leaves items and claims as
  they were.
\<close>

theorem addFoundReport_dangling:
  "report_id (fst (addFoundReport db a now)) = js_add1 (seq_found_reports db) \<and>
   report_itemId (fst (addFoundReport db a now)) = g_itemId a \<and>
   report_status (fst (addFoundReport db a now)) = ''pending'' \<and>
   report_createdAt (fst (addFoundReport db a now)) = now \<and>
   found_reports (snd (addFoundReport db a now))
     = found_reports db @ [fst (addFoundReport db a now)] \<and>
   seq_found_reports (snd (addFoundReport db a now)) = js_add1 (seq_found_reports db) \<and>
   items (snd (addFoundReport db a now)) = items db \<and>
   claims (snd (addFoundReport db a now)) = claims db"
  by (simp add: addFoundReport_def Let_def)

theorem addFoundReport_dangling_witness:
  "getItem init ''item-1'' = None \<and>
   report_id (fst (addFoundReport init library_fields ''2024-01-01T09:00:00.000Z'')) = 1 \<and>
   report_itemId (fst (addFoundReport init library_fields ''2024-01-01T09:00:00.000Z'')) = ''item-1'' \<and>
   report_status (fst (addFoundReport init library_fields ''2024-01-01T09:00:00.000Z'')) = ''pending''"
  using addFoundReport_dangling [of init library_fields "''2024-01-01T09:00:00.000Z''"]
  by (simp add: init_def getItem_def library_fields_def js_add1_def)

end
